theory Spec2Isabelle
  imports Main "HOL-Library.Sublist"
begin

section \<open>Python string operations used by the server\<close>

text \<open>
  Python strings are modelled as HOL strings (lists of 8-bit characters); the text handled
  by the server is taken to be ASCII. Each function below is the Python string method of
  the same name, restricted to the way \<^verbatim>\<open>server.py\<close> calls it.
\<close>

definition whitespace :: "char list" where
  \<comment> \<open>the ASCII characters for which \<^verbatim>\<open>str.isspace\<close> holds\<close>
  "whitespace = [CHR 0x09, CHR 0x0A, CHR 0x0B, CHR 0x0C, CHR 0x0D,
                 CHR 0x1C, CHR 0x1D, CHR 0x1E, CHR 0x1F, CHR '' '']"

definition isspace :: "char \<Rightarrow> bool" where
  "isspace c = (c \<in> set whitespace)"

definition strip :: "string \<Rightarrow> string" where
  \<comment> \<open>\<^verbatim>\<open>s.strip()\<close>: leading and trailing whitespace removed\<close>
  "strip s = rev (dropWhile isspace (rev (dropWhile isspace s)))"

definition upper_char :: "char \<Rightarrow> char" where
  "upper_char c =
     (case map_of (zip ''abcdefghijklmnopqrstuvwxyz'' ''ABCDEFGHIJKLMNOPQRSTUVWXYZ'') c of
        Some u \<Rightarrow> u
      | None \<Rightarrow> c)"

definition upper :: "string \<Rightarrow> string" where
  \<comment> \<open>\<^verbatim>\<open>s.upper()\<close> on ASCII text\<close>
  "upper s = map upper_char s"

definition startswith :: "string \<Rightarrow> string \<Rightarrow> bool" where
  \<comment> \<open>\<^verbatim>\<open>s.startswith(p)\<close>\<close>
  "startswith s p = prefix p s"

fun join :: "string \<Rightarrow> string list \<Rightarrow> string" where
  \<comment> \<open>\<^verbatim>\<open>sep.join(xs)\<close>\<close>
  "join sep [] = []"
| "join sep [x] = x"
| "join sep (x # y # ys) = x @ sep @ join sep (y # ys)"

fun split_on :: "char \<Rightarrow> string \<Rightarrow> string list" where
  \<comment> \<open>\<^verbatim>\<open>s.split(c)\<close> for a separator of one character; the result is never empty\<close>
  "split_on c [] = [[]]"
| "split_on c (x # xs) =
     (if x = c then [] # split_on c xs
      else (case split_on c xs of
              [] \<Rightarrow> [[x]]
            | piece # pieces \<Rightarrow> (x # piece) # pieces))"

function replace :: "string \<Rightarrow> string \<Rightarrow> string \<Rightarrow> string" where
  \<comment> \<open>\<^verbatim>\<open>s.replace(old, new)\<close>: the occurrences of \<open>old\<close> are found from the left and do
      not overlap; an empty \<open>old\<close> matches before every character and at the end\<close>
  "replace [] old new = (if old = [] then new else [])"
| "replace (c # cs) old new =
     (if old = [] then new @ c # replace cs old new
      else if prefix old (c # cs) then new @ replace (drop (length old) (c # cs)) old new
      else c # replace cs old new)"
  by pat_completeness auto
termination
  by (relation "measure (\<lambda>(s, old, new). length s)") auto

function split_str :: "string \<Rightarrow> string \<Rightarrow> string list" where
  \<comment> \<open>\<^verbatim>\<open>s.split(sep)\<close> for a non-empty separator string (Python raises on an empty one,
      a case the server never reaches; the model then returns the string unsplit)\<close>
  "split_str [] sep = [[]]"
| "split_str (c # cs) sep =
     (if sep \<noteq> [] \<and> prefix sep (c # cs)
      then [] # split_str (drop (length sep) (c # cs)) sep
      else (case split_str cs sep of
              [] \<Rightarrow> [[c]]
            | piece # pieces \<Rightarrow> (c # piece) # pieces))"
  by pat_completeness auto
termination
  by (relation "measure (\<lambda>(s, sep). length s)") auto

fun str_nat :: "nat \<Rightarrow> string" where
  \<comment> \<open>\<^verbatim>\<open>str(n)\<close> of a non-negative integer: its decimal digits\<close>
  "str_nat n =
     (if n < 10 then [''0123456789'' ! n]
      else str_nat (n div 10) @ [''0123456789'' ! (n mod 10)])"

declare str_nat.simps [simp del]

section \<open>The driver: result sets and the session pool\<close>

text \<open>
  The IoTDB driver is outside the repository. A result set is a cursor over rows of fields
  with named columns; \<open>'f\<close> is the driver's field type, whose \<^verbatim>\<open>str()\<close> is a
  parameter of the server model. The pool is observed through two counters: how many
  sessions were handed out by \<^verbatim>\<open>get_session\<close> and how many were given back by
  \<^verbatim>\<open>close\<close>.
\<close>

datatype error =
    ValueError string
  | IndexError
  | DriverError string

record 'f session_data_set =
  column_names :: "string list"
  rows :: "'f list list"

record session_pool =
  acquired :: nat
  closed :: nat


definition get_session :: "session_pool \<Rightarrow> session_pool" where
  "get_session pool = pool\<lparr>acquired := Suc (acquired pool)\<rparr>"

definition close :: "session_pool \<Rightarrow> session_pool" where
  "close pool = pool\<lparr>closed := Suc (closed pool)\<rparr>"

section \<open>The server\<close>

definition RES_PREFIX :: string where
  "RES_PREFIX = ''iotdb://''"

definition RESULTS_LIMIT :: nat where
  "RESULTS_LIMIT = 100"

datatype text_content = TextContent (content_text: string)

record resource =
  res_uri :: string
  res_name :: string
  res_mimeType :: string
  res_description :: string

record prompt_message =
  msg_role :: string
  msg_content :: text_content

record get_prompt_result =
  gpr_description :: string
  gpr_messages :: "prompt_message list"

record prompt_template =
  \<comment> \<open>one entry of the table built by \<^verbatim>\<open>templates_loader\<close>:
      \<^verbatim>\<open>template["config"]["description"]\<close> and \<^verbatim>\<open>template["template"]\<close>\<close>
  config_description :: string
  template_body :: string

record 'f database_server =
  \<comment> \<open>\<^verbatim>\<open>self.db_config["database"]\<close>\<close>
  database :: string
  \<comment> \<open>\<^verbatim>\<open>self.templates\<close>\<close>
  templates :: "string \<rightharpoonup> prompt_template"
  \<comment> \<open>the driver's \<^verbatim>\<open>execute_query_statement\<close>: it raises or returns a result set\<close>
  execute_query_statement :: "string \<Rightarrow> error + 'f session_data_set"
  \<comment> \<open>\<^verbatim>\<open>str()\<close> of a driver field\<close>
  field_str :: "'f \<Rightarrow> string"

subsection \<open>The cursor loops\<close>

fun first_fields :: "('f \<Rightarrow> string) \<Rightarrow> 'f list list \<Rightarrow> string list \<Rightarrow> error + string list" where
  \<comment> \<open>\<^verbatim>\<open>while res.has_next(): result.append(str(res.next().get_fields()[0]))\<close>;
      indexing a row without fields raises\<close>
  "first_fields str [] result = Inr result"
| "first_fields str (row # rest) result =
     (case row of
        [] \<Rightarrow> Inl IndexError
      | f # _ \<Rightarrow> first_fields str rest (result @ [str f]))"

fun joined_rows :: "('f \<Rightarrow> string) \<Rightarrow> 'f list list \<Rightarrow> string list \<Rightarrow> string list" where
  \<comment> \<open>\<^verbatim>\<open>while res.has_next(): result.append(",".join(map(str, res.next().get_fields())))\<close>\<close>
  "joined_rows str [] result = result"
| "joined_rows str (row # rest) result =
     joined_rows str rest (result @ [join '','' (map str row)])"

definition table_resource :: "string \<Rightarrow> resource" where
  \<comment> \<open>the \<^verbatim>\<open>Resource(...)\<close> that \<^verbatim>\<open>list_resources\<close> builds for one table\<close>
  "table_resource table =
     \<lparr>res_uri = RES_PREFIX @ table @ ''/data'',
      res_name = ''Table: '' @ table,
      res_mimeType = ''text/plain'',
      res_description = ''Data in table: '' @ table\<rparr>"

fun table_resources ::
  "('f \<Rightarrow> string) \<Rightarrow> 'f list list \<Rightarrow> resource list \<Rightarrow> error + resource list" where
  \<comment> \<open>\<^verbatim>\<open>while tables.has_next(): table = str(tables.next().get_fields()[0]);
      resources.append(Resource(...))\<close>\<close>
  "table_resources str [] resources = Inr resources"
| "table_resources str (row # rest) resources =
     (case row of
        [] \<Rightarrow> Inl IndexError
      | f # _ \<Rightarrow> table_resources str rest (resources @ [table_resource (str f)]))"

subsection \<open>Handlers\<close>

text \<open>
  A handler takes the pool and returns its result, or the error it raises, together with
  the pool as the handler leaves it.
\<close>

definition list_resources ::
  "'f database_server \<Rightarrow> session_pool \<Rightarrow> (error + resource list) \<times> session_pool" where
  "list_resources self pool =
     (let table_session = get_session pool in
      case execute_query_statement self ''SHOW TABLES'' of
        Inl e \<Rightarrow> (Inl e, table_session)
      | Inr tables \<Rightarrow>
          (case table_resources (field_str self) (rows tables) [] of
             Inl e \<Rightarrow> (Inl e, table_session)
           | Inr resources \<Rightarrow> (Inr resources, close table_session)))"

definition read_resource ::
  "'f database_server \<Rightarrow> session_pool \<Rightarrow> string \<Rightarrow> (error + string) \<times> session_pool" where
  "read_resource self pool uri_str =
     (if \<not> startswith uri_str RES_PREFIX
      then (Inl (ValueError (''Invalid URI scheme: '' @ uri_str)), pool)
      else
        case split_on CHR ''/'' (drop (length RES_PREFIX) uri_str) of
          [] \<Rightarrow> (Inl IndexError, pool)
        | table # _ \<Rightarrow>
            (let table_session = get_session pool in
             case execute_query_statement self
                    (''SELECT * FROM '' @ table @ '' LIMIT '' @ str_nat RESULTS_LIMIT) of
               Inl e \<Rightarrow> (Inl e, table_session)
             | Inr res \<Rightarrow>
                 (let columns = column_names res;
                      result = joined_rows (field_str self) (rows res) []
                  in (Inr (join ''\<newline>'' (join '','' columns # result)),
                      close table_session))))"

definition placeholder :: "string \<Rightarrow> string" where
  \<comment> \<open>the f-string \<^verbatim>\<open>f"{{{{ {key} }}}}"\<close>: the marker \<^verbatim>\<open>{{ key }}\<close> of an argument\<close>
  "placeholder key = ''{{ '' @ key @ '' }}''"

definition get_prompt ::
  "'f database_server \<Rightarrow> string \<Rightarrow> (string \<times> string) list option \<Rightarrow> error + get_prompt_result" where
  \<comment> \<open>the argument dictionary is its list of items, in the dictionary's order\<close>
  "get_prompt self name arguments =
     (case templates self name of
        None \<Rightarrow> Inl (ValueError (''Unknown template: '' @ name))
      | Some tmpl \<Rightarrow>
          (let formatted_template =
                 (case arguments of
                    None \<Rightarrow> template_body tmpl
                  | Some items \<Rightarrow>
                      if items = [] then template_body tmpl
                      else foldl (\<lambda>formatted (key, val).
                                    replace formatted (placeholder key) val)
                                 (template_body tmpl) items)
           in Inr \<lparr>gpr_description = config_description tmpl,
                   gpr_messages = [\<lparr>msg_role = ''user'',
                                    msg_content = TextContent formatted_template\<rparr>]\<rparr>))"

definition call_tool ::
  "(string \<Rightarrow> bool \<times> string) \<Rightarrow> 'f database_server \<Rightarrow> session_pool \<Rightarrow> string \<Rightarrow>
   (string \<rightharpoonup> string) \<Rightarrow> (error + text_content list) \<times> session_pool" where
  \<comment> \<open>\<open>gate\<close> is \<^verbatim>\<open>utils.security_gate\<close>\<close>
  "call_tool gate self pool name arguments =
     (if name \<noteq> ''execute_sql''
      then (Inl (ValueError (''Unknown tool: '' @ name)), pool)
      else
        case arguments ''query'' of
          None \<Rightarrow> (Inl (ValueError ''Query is required''), pool)
        | Some query \<Rightarrow>
            if query = [] then (Inl (ValueError ''Query is required''), pool)
            else
              (case gate query of (is_dangerous, reason) \<Rightarrow>
                 if is_dangerous
                 then (Inr [TextContent (''Error: Contain dangerous operations, reason:'' @ reason)],
                       pool)
                 else
                   (let table_session = get_session pool in
                    case execute_query_statement self query of
                      Inl e \<Rightarrow> (Inl e, table_session)
                    | Inr res \<Rightarrow>
                        (let stmt = upper (strip query) in
                         if startswith stmt ''SHOW TABLES''
                         then
                           (case first_fields (field_str self) (rows res)
                                   [''Tables_in_'' @ database self] of
                              Inl e \<Rightarrow> (Inl e, table_session)
                            | Inr result \<Rightarrow>
                                (Inr [TextContent (join ''\<newline>'' result)],
                                 close table_session))
                         else if startswith stmt ''SELECT'' \<or> startswith stmt ''DESCRIBE''
                         then
                           (let columns = column_names res;
                                result = joined_rows (field_str self) (rows res) []
                            in (Inr [TextContent (join ''\<newline>'' (join '','' columns # result))],
                                close table_session))
                         else (Inr [TextContent ''Error executing query''], table_session)))))"

section \<open>The security gate\<close>

text \<open>
  Modelled from the spec: \<^verbatim>\<open>security_gate\<close> is imported by \<^verbatim>\<open>server.py\<close> from the
  module \<^verbatim>\<open>utils\<close>, whose source is missing. The model follows the specification's
  SecurityGate: the query is rejected when it is empty after trimming, when a denylisted
  keyword occurs as a token outside quoted string literals (compared in upper case), or
  when a statement separator occurs outside quoted string literals. Tokens are the maximal
  runs of letters, digits and underscores; a literal runs from a single or double quote to
  the next quote of the same kind, or to the end of the text. The result is the pair that
  \<^verbatim>\<open>call_tool\<close> unpacks: the verdict and the reason.
\<close>

definition denylist :: "string list" where
  \<comment> \<open>Modelled from the spec: the keywords of the SecurityGate's denylist\<close>
  "denylist = [''DROP'', ''DELETE'', ''TRUNCATE'', ''ALTER'', ''UPDATE'', ''INSERT'',
               ''GRANT'', ''REVOKE'', ''CREATE'']"

definition is_word_char :: "char \<Rightarrow> bool" where
  \<comment> \<open>Modelled from the spec: the characters of a keyword or identifier token; every
      other character, whitespace and punctuation, separates tokens\<close>
  "is_word_char c =
     (c \<in> set ''ABCDEFGHIJKLMNOPQRSTUVWXYZabcdefghijklmnopqrstuvwxyz0123456789_'')"

fun outside_literals :: "char option \<Rightarrow> string \<Rightarrow> string" where
  \<comment> \<open>Modelled from the spec: the text outside string literals, every quoted literal
      replaced by one space; the first argument is the quote character of the literal
      being skipped, if any\<close>
  "outside_literals st [] = []"
| "outside_literals None (c # cs) =
     (if c = CHR 0x27 \<or> c = CHR 0x22 then CHR '' '' # outside_literals (Some c) cs
      else c # outside_literals None cs)"
| "outside_literals (Some q) (c # cs) =
     (if c = q then outside_literals None cs else outside_literals (Some q) cs)"

fun tokens :: "string \<Rightarrow> string \<Rightarrow> string list" where
  \<comment> \<open>Modelled from the spec: the tokens of a text, its maximal runs of word characters,
      in order; the first argument is the run being read\<close>
  "tokens cur [] = (if cur = [] then [] else [cur])"
| "tokens cur (c # cs) =
     (if is_word_char c then tokens (cur @ [c]) cs
      else (if cur = [] then [] else [cur]) @ tokens [] cs)"

definition security_gate :: "string \<Rightarrow> bool \<times> string" where
  \<comment> \<open>Modelled from the spec: \<^verbatim>\<open>utils.security_gate\<close>, the SecurityGate's classify;
      it returns whether the query is dangerous, and the reason\<close>
  "security_gate query =
     (if strip query = [] then (True, ''empty query'')
      else
        (let code = upper (outside_literals None query) in
         case find (\<lambda>t. t \<in> set denylist) (tokens [] code) of
           Some keyword \<Rightarrow> (True, keyword)
         | None \<Rightarrow> if CHR '';'' \<in> set code then (True, '';'') else (False, [])))"


section \<open>Placeholder substitution as the specification states it\<close>

definition prompt_result :: "prompt_template \<Rightarrow> string \<Rightarrow> get_prompt_result" where
  \<comment> \<open>the \<^verbatim>\<open>GetPromptResult\<close> that \<^verbatim>\<open>get_prompt\<close> returns for a template and a text\<close>
  "prompt_result tmpl formatted =
     \<lparr>gpr_description = config_description tmpl,
      gpr_messages = [\<lparr>msg_role = ''user'', msg_content = TextContent formatted\<rparr>]\<rparr>"

function substitute :: "(string \<times> string) list \<Rightarrow> string \<Rightarrow> string" where
  \<comment> \<open>the specification's reading of the substitution: the text is read once from the
      left; where the placeholder of a supplied argument starts, the argument's value
      is written and the placeholder skipped; every other character is kept\<close>
  "substitute items [] = []"
| "substitute items (c # cs) =
     (case find (\<lambda>(key, val). prefix (placeholder key) (c # cs)) items of
        None \<Rightarrow> c # substitute items cs
      | Some (key, val) \<Rightarrow>
          val @ substitute items (drop (length (placeholder key)) (c # cs)))"
  by pat_completeness auto
termination
  by (relation "measure (\<lambda>(items, s). length s)") (auto simp: placeholder_def)

section \<open>Example inputs\<close>

definition log_result :: "string session_data_set" where
  \<comment> \<open>one row, whose text field holds two lines\<close>
  "log_result = \<lparr>column_names = [''note''], rows = [[''line one\<newline>line two'']]\<rparr>"

definition sensors_result :: "string session_data_set" where
  "sensors_result = \<lparr>column_names = [''time'', ''temp''], rows = [[''1'', ''23.5'']]\<rparr>"

definition example_driver :: "string \<Rightarrow> error + string session_data_set" where
  \<comment> \<open>a database with the tables \<open>a\<close> and \<open>b\<close>, a table of sensor readings and a table
      with a text column; its fields are rendered as they are\<close>
  "example_driver statement =
     (if statement = ''SHOW TABLES''
      then Inr \<lparr>column_names = [''TableName'', ''TTL(ms)''],
                rows = [[''a'', ''INF''], [''b'', ''INF'']]\<rparr>
      else if statement = ''SELECT * FROM sensors LIMIT 100''
      then Inr sensors_result
      else if statement = ''SELECT note FROM logs''
      then Inr log_result
      else if statement = ''SELECT * FROM missing''
      then Inl (DriverError ''table missing does not exist'')
      else Inr \<lparr>column_names = [''c''], rows = [[''0'']]\<rparr>)"

definition summary_template :: prompt_template where
  "summary_template =
     \<lparr>config_description = ''summarise a topic'',
      template_body = ''Summarise {{ topic }} for {{ audience }}''\<rparr>"

definition example_templates :: "string \<rightharpoonup> prompt_template" where
  "example_templates = [''summary'' \<mapsto> summary_template]"

definition example_server :: "string database_server" where
  "example_server =
     \<lparr>database = ''db'', templates = example_templates,
      execute_query_statement = example_driver, field_str = id\<rparr>"

definition idle_pool :: session_pool where
  "idle_pool = \<lparr>acquired = 0, closed = 0\<rparr>"

definition query_arguments :: "string \<Rightarrow> (string \<rightharpoonup> string)" where
  \<comment> \<open>the argument dictionary \<^verbatim>\<open>{"query": q}\<close>\<close>
  "query_arguments q = [''query'' \<mapsto> q]"

definition no_arguments :: "string \<rightharpoonup> string" where
  \<comment> \<open>the empty argument dictionary\<close>
  "no_arguments = Map.empty"

section \<open>The tabular text format\<close>

definition tabular :: "('f \<Rightarrow> string) \<Rightarrow> 'f session_data_set \<Rightarrow> string" where
  \<comment> \<open>the specification's text format for tabular output: the header fields joined by
      commas on the first line, then one line for each row, its fields joined by commas\<close>
  "tabular str res =
     join ''\<newline>''
       (join '','' (column_names res) # map (\<lambda>row. join '','' (map str row)) (rows res))"

section \<open>Facts about the string operations and the cursor loops\<close>

lemma first_fields_append:
  "\<forall>row \<in> set rs. row \<noteq> [] \<Longrightarrow>
     first_fields str rs acc = Inr (acc @ map (\<lambda>row. str (hd row)) rs)"
  by (induction rs arbitrary: acc) (auto split: list.splits)

lemma first_fields_empty_row:
  "[] \<in> set rs \<Longrightarrow> first_fields str rs acc = Inl IndexError"
  by (induction rs arbitrary: acc) (auto split: list.splits)

lemma joined_rows_append:
  "joined_rows str rs acc = acc @ map (\<lambda>row. join '','' (map str row)) rs"
  by (induction rs arbitrary: acc) auto

lemma split_on_not_Nil: "split_on c s \<noteq> []"
  by (induction s) (auto split: list.splits)

lemma split_on_no_sep: "c \<notin> set s \<Longrightarrow> split_on c s = [s]"
  by (induction s) auto

lemma split_on_append_sep:
  "c \<notin> set t \<Longrightarrow> split_on c (t @ c # rest) = t # split_on c rest"
  by (induction t) auto

lemma join_Cons: "xs \<noteq> [] \<Longrightarrow> join sep (x # xs) = x @ sep @ join sep xs"
  by (cases xs) auto

lemma split_on_join:
  "xs \<noteq> [] \<Longrightarrow> \<forall>x \<in> set xs. c \<notin> set x \<Longrightarrow> split_on c (join [c] xs) = xs"
proof (induction xs)
  case Nil
  then show ?case by simp
next
  case (Cons x xs)
  show ?case
  proof (cases "xs = []")
    case True
    with Cons.prems show ?thesis by (simp add: split_on_no_sep)
  next
    case False
    with Cons show ?thesis by (simp add: join_Cons split_on_append_sep)
  qed
qed

lemma set_join: "set (join sep xs) \<subseteq> set sep \<union> \<Union> (set ` set xs)"
  by (induction sep xs rule: join.induct) auto

lemma not_show_tables_if_select:
  "startswith s ''SELECT'' \<or> startswith s ''DESCRIBE'' \<Longrightarrow> \<not> startswith s ''SHOW TABLES''"
  by (auto simp: startswith_def prefix_def)

lemma str_limit: "str_nat RESULTS_LIMIT = ''100''"
  unfolding RESULTS_LIMIT_def by code_simp


section \<open>Session lifecycle\<close>

text \<open>
  The handlers that reach \<^verbatim>\<open>table_session.close()\<close> hand out one session and give it
  back: after \<^verbatim>\<open>list_resources\<close> and \<^verbatim>\<open>read_resource\<close> on a driver call that returns,
  the pool has one more acquisition and one more release.
\<close>

lemma read_resource_releases:
  "startswith uri_str RES_PREFIX \<Longrightarrow>
   execute_query_statement self
     (''SELECT * FROM '' @ hd (split_on CHR ''/'' (drop (length RES_PREFIX) uri_str)) @
      '' LIMIT '' @ str_nat RESULTS_LIMIT) = Inr res \<Longrightarrow>
   snd (read_resource self pool uri_str) = close (get_session pool)"
  by (cases "split_on CHR ''/'' (drop (length RES_PREFIX) uri_str)")
     (simp_all add: read_resource_def split_on_not_Nil Let_def)

lemma list_resources_releases:
  "execute_query_statement self ''SHOW TABLES'' = Inr tables \<Longrightarrow>
   fst (list_resources self pool) = Inr resources \<Longrightarrow>
   snd (list_resources self pool) = close (get_session pool)"
  by (auto simp: list_resources_def Let_def split: sum.splits)

text \<open>
  C1. Every handler invocation that takes a session from the pool gives it back exactly
  once, on every path. The code does not: the last branch of \<^verbatim>\<open>call_tool\<close>, taken by an
  approved statement that is none of SHOW TABLES, SELECT and DESCRIBE, returns its
  diagnostic without closing the session that was taken, and no handler closes the
  session when the driver raises. On the query \<^verbatim>\<open>SET SOMETHING\<close>, and on a query the
  driver fails, the pool is left with one session acquired and none released.
\<close>

theorem unsupported_statement_leaks_session:
  "call_tool security_gate example_server idle_pool ''execute_sql''
     (query_arguments ''SET SOMETHING'') =
   (Inr [TextContent ''Error executing query''], \<lparr>acquired = 1, closed = 0\<rparr>) \<and>
   call_tool security_gate example_server idle_pool ''execute_sql''
     (query_arguments ''SELECT * FROM missing'') =
   (Inl (DriverError ''table missing does not exist''), \<lparr>acquired = 1, closed = 0\<rparr>)"
  by code_simp

section \<open>Rejections\<close>




text \<open>
  C7. Every validation error is raised as an error, not returned as text, and the pool is
  left as it was: \<^verbatim>\<open>call_tool\<close> with a tool name other than \<^verbatim>\<open>execute_sql\<close>,
  \<^verbatim>\<open>call_tool\<close> with a missing or empty \<^verbatim>\<open>query\<close> argument, and \<^verbatim>\<open>read_resource\<close> with
  a URI that does not start with the scheme prefix.
\<close>

theorem validation_errors_leave_pool_untouched:
  "(name \<noteq> ''execute_sql'' \<longrightarrow>
      call_tool gate self pool name arguments =
        (Inl (ValueError (''Unknown tool: '' @ name)), pool)) \<and>
   (arguments ''query'' = None \<or> arguments ''query'' = Some [] \<longrightarrow>
      call_tool gate self pool ''execute_sql'' arguments =
        (Inl (ValueError ''Query is required''), pool)) \<and>
   (\<not> startswith uri_str RES_PREFIX \<longrightarrow>
      read_resource self pool uri_str =
        (Inl (ValueError (''Invalid URI scheme: '' @ uri_str)), pool))"
  by (auto simp: call_tool_def read_resource_def)

theorem validation_errors_leave_pool_untouched_witness:
  "call_tool security_gate example_server idle_pool ''drop_database'' no_arguments =
     (Inl (ValueError ''Unknown tool: drop_database''), idle_pool) \<and>
   call_tool security_gate example_server idle_pool ''execute_sql'' no_arguments =
     (Inl (ValueError ''Query is required''), idle_pool) \<and>
   call_tool security_gate example_server idle_pool ''execute_sql'' (query_arguments '''') =
     (Inl (ValueError ''Query is required''), idle_pool) \<and>
   read_resource example_server idle_pool ''http://sensors/data'' =
     (Inl (ValueError ''Invalid URI scheme: http://sensors/data''), idle_pool)"
proof -
  have name: "''drop_database'' \<noteq> ''execute_sql''" by simp
  have missing: "no_arguments ''query'' = None \<or> no_arguments ''query'' = Some []"
    by (simp add: no_arguments_def)
  have empty: "query_arguments '''' ''query'' = None \<or> query_arguments '''' ''query'' = Some []"
    by (simp add: query_arguments_def)
  have uri: "\<not> startswith ''http://sensors/data'' RES_PREFIX"
    by (simp add: startswith_def RES_PREFIX_def)
  note v1 = validation_errors_leave_pool_untouched
    [where name = "''drop_database''" and gate = security_gate and self = example_server
       and pool = idle_pool and arguments = no_arguments
       and uri_str = "''http://sensors/data''"]
  note v2 = validation_errors_leave_pool_untouched
    [where name = "''drop_database''" and gate = security_gate and self = example_server
       and pool = idle_pool and arguments = "query_arguments ''''"
       and uri_str = "''http://sensors/data''"]
  from v1 name have 1: "call_tool security_gate example_server idle_pool ''drop_database''
      no_arguments = (Inl (ValueError ''Unknown tool: drop_database''), idle_pool)"
    by simp
  from v1 missing have 2: "call_tool security_gate example_server idle_pool ''execute_sql''
      no_arguments = (Inl (ValueError ''Query is required''), idle_pool)"
    by blast
  from v2 empty have 3: "call_tool security_gate example_server idle_pool ''execute_sql''
      (query_arguments '''') = (Inl (ValueError ''Query is required''), idle_pool)"
    by blast
  from v1 uri have 4: "read_resource example_server idle_pool ''http://sensors/data'' =
      (Inl (ValueError ''Invalid URI scheme: http://sensors/data''), idle_pool)"
    by simp
  from 1 2 3 4 show ?thesis by blast
qed

section \<open>Formatting the result of an approved query\<close>

text \<open>
  C5. For every approved query whose trimmed, upper-cased text starts with SHOW TABLES,
  on a result set whose rows each have a first field (the table name), \<^verbatim>\<open>call_tool\<close>
  returns the header \<^verbatim>\<open>Tables_in_<database>\<close>, made from the configured database name,
  followed by the table names, one per line, joined by newlines; with two tables the text
  is the header, the first name and the second name on three lines.
\<close>

theorem show_tables_lists_table_names:
  assumes "arguments ''query'' = Some query" and "query \<noteq> []"
    and "gate query = (False, reason)"
    and "startswith (upper (strip query)) ''SHOW TABLES''"
    and "execute_query_statement self query = Inr res"
    and "\<forall>row \<in> set (rows res). row \<noteq> []"
  shows "call_tool gate self pool ''execute_sql'' arguments =
           (Inr [TextContent (join ''\<newline>'' ((''Tables_in_'' @ database self) #
                                 map (\<lambda>row. field_str self (hd row)) (rows res)))],
            close (get_session pool)) \<and>
         (\<forall>ra rb. rows res = [ra, rb] \<longrightarrow>
            call_tool gate self pool ''execute_sql'' arguments =
              (Inr [TextContent (''Tables_in_'' @ database self @ ''\<newline>'' @
                                 field_str self (hd ra) @ ''\<newline>'' @ field_str self (hd rb))],
               close (get_session pool)))"
proof -
  have main: "call_tool gate self pool ''execute_sql'' arguments =
           (Inr [TextContent (join ''\<newline>'' ((''Tables_in_'' @ database self) #
                                 map (\<lambda>row. field_str self (hd row)) (rows res)))],
            close (get_session pool))"
    using assms by (simp add: call_tool_def Let_def first_fields_append)
  show ?thesis
  proof (intro conjI allI impI)
    show "call_tool gate self pool ''execute_sql'' arguments =
           (Inr [TextContent (join ''\<newline>'' ((''Tables_in_'' @ database self) #
                                 map (\<lambda>row. field_str self (hd row)) (rows res)))],
            close (get_session pool))"
      by (rule main)
  next
    fix ra rb
    assume "rows res = [ra, rb]"
    with main show "call_tool gate self pool ''execute_sql'' arguments =
              (Inr [TextContent (''Tables_in_'' @ database self @ ''\<newline>'' @
                                 field_str self (hd ra) @ ''\<newline>'' @ field_str self (hd rb))],
               close (get_session pool))"
      by simp
  qed
qed

theorem show_tables_lists_table_names_witness:
  "call_tool security_gate example_server idle_pool ''execute_sql''
     (query_arguments ''SHOW TABLES'') =
   (Inr [TextContent ''Tables_in_db\<newline>a\<newline>b''], close (get_session idle_pool))"
proof -
  let ?res = "\<lparr>column_names = [''TableName'', ''TTL(ms)''],
               rows = [[''a'', ''INF''], [''b'', ''INF'']]\<rparr> :: string session_data_set"
  have a: "query_arguments ''SHOW TABLES'' ''query'' = Some ''SHOW TABLES''"
    by (simp add: query_arguments_def)
  have b: "''SHOW TABLES'' \<noteq> []" by simp
  have g: "security_gate ''SHOW TABLES'' = (False, [])" by code_simp
  have s: "startswith (upper (strip ''SHOW TABLES'')) ''SHOW TABLES''" by code_simp
  have e: "execute_query_statement example_server ''SHOW TABLES'' = Inr ?res"
    by (simp add: example_server_def example_driver_def)
  have r: "\<forall>row \<in> set (rows ?res). row \<noteq> []" by simp
  from show_tables_lists_table_names
         [where gate = security_gate and self = example_server and pool = idle_pool
            and arguments = "query_arguments ''SHOW TABLES''"
            and query = "''SHOW TABLES''" and res = ?res, OF a b g s e r]
  have "call_tool security_gate example_server idle_pool ''execute_sql''
          (query_arguments ''SHOW TABLES'') =
        (Inr [TextContent (''Tables_in_'' @ database example_server @ ''\<newline>'' @
                field_str example_server (hd [''a'', ''INF'']) @ ''\<newline>'' @
                field_str example_server (hd [''b'', ''INF'']))],
         close (get_session idle_pool))"
    by simp
  then show ?thesis by (simp add: example_server_def)
qed



lemma call_tool_tabular:
  assumes "arguments ''query'' = Some query" and "query \<noteq> []"
    and "gate query = (False, reason)"
    and "startswith (upper (strip query)) ''SELECT'' \<or>
         startswith (upper (strip query)) ''DESCRIBE''"
    and "execute_query_statement self query = Inr res"
  shows "call_tool gate self pool ''execute_sql'' arguments =
           (Inr [TextContent (tabular (field_str self) res)], close (get_session pool))"
proof -
  from assms(4) have "\<not> startswith (upper (strip query)) ''SHOW TABLES''"
    by (rule not_show_tables_if_select)
  with assms show ?thesis
    by (simp add: call_tool_def Let_def joined_rows_append tabular_def)
qed

lemma tabular_lines:
  assumes "\<forall>c \<in> set (column_names res). CHR ''\<newline>'' \<notin> set c"
    and "\<forall>row \<in> set (rows res). \<forall>f \<in> set row. CHR ''\<newline>'' \<notin> set (str f)"
  shows "split_on CHR ''\<newline>'' (tabular str res) =
           join '','' (column_names res) # map (\<lambda>row. join '','' (map str row)) (rows res)"
proof -
  have "CHR ''\<newline>'' \<notin> set (join '','' (column_names res))"
    using assms(1) set_join[of "'',''" "column_names res"] by auto
  moreover have "CHR ''\<newline>'' \<notin> set (join '','' (map str row))" if "row \<in> set (rows res)" for row
    using assms(2) that set_join[of "'',''" "map str row"] by auto
  ultimately show ?thesis
    unfolding tabular_def by (intro split_on_join) auto
qed

text \<open>
  C4, as amended. For every approved query whose trimmed, upper-cased text starts with
  SELECT or DESCRIBE, on a driver call that returns a result set, \<^verbatim>\<open>call_tool\<close> returns
  the text whose first line is the column names joined by commas and whose further
  lines are, one per row in cursor order, the strings of the row's fields joined by
  commas, with no quoting or escaping, the lines joined by newlines. When there is at
  least one column, no column name contains a comma or a newline, and no field's string
  contains a newline, the first line splits at its commas into the column names, as
  many fields as there are columns, and the lines after it are the rows' lines, as many
  as the rows returned.
\<close>

theorem select_result_is_tabular:
  assumes "arguments ''query'' = Some query" and "query \<noteq> []"
    and "gate query = (False, reason)"
    and "startswith (upper (strip query)) ''SELECT'' \<or>
         startswith (upper (strip query)) ''DESCRIBE''"
    and "execute_query_statement self query = Inr res"
  shows "call_tool gate self pool ''execute_sql'' arguments =
           (Inr [TextContent (tabular (field_str self) res)], close (get_session pool)) \<and>
         (column_names res \<noteq> [] \<and>
          (\<forall>c \<in> set (column_names res). CHR '','' \<notin> set c \<and> CHR ''\<newline>'' \<notin> set c) \<and>
          (\<forall>row \<in> set (rows res). \<forall>f \<in> set row. CHR ''\<newline>'' \<notin> set (field_str self f)) \<longrightarrow>
            split_on CHR '','' (hd (split_on CHR ''\<newline>'' (tabular (field_str self) res))) =
              column_names res \<and>
            tl (split_on CHR ''\<newline>'' (tabular (field_str self) res)) =
              map (\<lambda>row. join '','' (map (field_str self) row)) (rows res) \<and>
            length (split_on CHR '','' (hd (split_on CHR ''\<newline>'' (tabular (field_str self) res)))) =
              length (column_names res) \<and>
            length (tl (split_on CHR ''\<newline>'' (tabular (field_str self) res))) =
              length (rows res))"
proof (intro conjI impI)
  show "call_tool gate self pool ''execute_sql'' arguments =
           (Inr [TextContent (tabular (field_str self) res)], close (get_session pool))"
    using assms by (rule call_tool_tabular)
next
  assume clean: "column_names res \<noteq> [] \<and>
          (\<forall>c \<in> set (column_names res). CHR '','' \<notin> set c \<and> CHR ''\<newline>'' \<notin> set c) \<and>
          (\<forall>row \<in> set (rows res). \<forall>f \<in> set row. CHR ''\<newline>'' \<notin> set (field_str self f))"
  then have lines: "split_on CHR ''\<newline>'' (tabular (field_str self) res) =
      join '','' (column_names res) #
      map (\<lambda>row. join '','' (map (field_str self) row)) (rows res)"
    by (intro tabular_lines) auto
  from clean have cols: "split_on CHR '','' (join '','' (column_names res)) = column_names res"
    by (intro split_on_join) auto
  show "split_on CHR '','' (hd (split_on CHR ''\<newline>'' (tabular (field_str self) res))) =
              column_names res"
    by (simp add: lines cols)
  show "tl (split_on CHR ''\<newline>'' (tabular (field_str self) res)) =
              map (\<lambda>row. join '','' (map (field_str self) row)) (rows res)"
    by (simp add: lines)
  show "length (split_on CHR '','' (hd (split_on CHR ''\<newline>'' (tabular (field_str self) res)))) =
              length (column_names res)"
    by (simp add: lines cols)
  show "length (tl (split_on CHR ''\<newline>'' (tabular (field_str self) res))) =
              length (rows res)"
    by (simp add: lines)
qed

theorem select_result_is_tabular_witness:
  "call_tool security_gate example_server idle_pool ''execute_sql''
     (query_arguments ''SELECT * FROM sensors LIMIT 100'') =
     (Inr [TextContent ''time,temp\<newline>1,23.5''], close (get_session idle_pool)) \<and>
   split_on CHR '','' (hd (split_on CHR ''\<newline>'' ''time,temp\<newline>1,23.5'')) = [''time'', ''temp''] \<and>
   tl (split_on CHR ''\<newline>'' ''time,temp\<newline>1,23.5'') = [''1,23.5'']"
proof -
  let ?q = "''SELECT * FROM sensors LIMIT 100''"
  have a: "query_arguments ?q ''query'' = Some ?q"
    by (simp add: query_arguments_def)
  have b: "?q \<noteq> []" by simp
  have g: "security_gate ?q = (False, [])" by code_simp
  have s: "startswith (upper (strip ?q)) ''SELECT'' \<or> startswith (upper (strip ?q)) ''DESCRIBE''"
    by code_simp
  have e: "execute_query_statement example_server ?q = Inr sensors_result"
    by (simp add: example_server_def example_driver_def)
  have clean: "column_names sensors_result \<noteq> [] \<and>
          (\<forall>c \<in> set (column_names sensors_result). CHR '','' \<notin> set c \<and> CHR ''\<newline>'' \<notin> set c) \<and>
          (\<forall>row \<in> set (rows sensors_result). \<forall>f \<in> set row.
             CHR ''\<newline>'' \<notin> set (field_str example_server f))"
    by (simp add: sensors_result_def example_server_def)
  have t: "tabular (field_str example_server) sensors_result = ''time,temp\<newline>1,23.5''"
    by (simp add: tabular_def sensors_result_def example_server_def)
  have cols: "column_names sensors_result = [''time'', ''temp'']"
    by (simp add: sensors_result_def)
  have rws: "map (\<lambda>row. join '','' (map (field_str example_server) row)) (rows sensors_result) =
               [''1,23.5'']"
    by (simp add: sensors_result_def example_server_def)
  note th = select_result_is_tabular
         [where gate = security_gate and self = example_server and pool = idle_pool
            and arguments = "query_arguments ?q" and query = ?q and res = sensors_result,
          OF a b g s e]
  note shape = th[THEN conjunct2, THEN mp, OF clean]
  from th[THEN conjunct1]
  have 1: "call_tool security_gate example_server idle_pool ''execute_sql''
     (query_arguments ?q) =
     (Inr [TextContent ''time,temp\<newline>1,23.5''], close (get_session idle_pool))"
    unfolding t .
  from shape[THEN conjunct1]
  have 2: "split_on CHR '','' (hd (split_on CHR ''\<newline>'' ''time,temp\<newline>1,23.5'')) =
             [''time'', ''temp'']"
    unfolding t cols .
  from shape[THEN conjunct2, THEN conjunct1]
  have 3: "tl (split_on CHR ''\<newline>'' ''time,temp\<newline>1,23.5'') = [''1,23.5'']"
    unfolding t rws .
  from 1 2 3 show ?thesis by (intro conjI)
qed

text \<open>
  C4 as stated fails where a field holds a newline: nothing is escaped, so a result set
  of one row whose text field has two lines is rendered as a header and two further
  lines.
\<close>

theorem select_newline_field_breaks_line_count:
  "security_gate ''SELECT note FROM logs'' = (False, []) \<and>
   execute_query_statement example_server ''SELECT note FROM logs'' = Inr log_result \<and>
   call_tool security_gate example_server idle_pool ''execute_sql''
     (query_arguments ''SELECT note FROM logs'') =
     (Inr [TextContent ''note\<newline>line one\<newline>line two''], close (get_session idle_pool)) \<and>
   length (tl (split_on CHR ''\<newline>'' ''note\<newline>line one\<newline>line two'')) = 2 \<and>
   length (rows log_result) = 1"
  by code_simp

text \<open>
  C9. The statement kind is found by matching a prefix of the trimmed, upper-cased query:
  every approved query whose trimmed, upper-cased text is \<^verbatim>\<open>SELECT\<close> or \<^verbatim>\<open>DESCRIBE\<close>
  followed by any characters at all, also letters that continue the word as in
  \<^verbatim>\<open>selected rows\<close>, is rendered as a tabular result and does not reach the error
  branch.
\<close>

theorem statement_kind_is_prefix_match:
  assumes "arguments ''query'' = Some query" and "query \<noteq> []"
    and "gate query = (False, reason)"
    and "upper (strip query) = ''SELECT'' @ rest \<or> upper (strip query) = ''DESCRIBE'' @ rest"
    and "execute_query_statement self query = Inr res"
  shows "call_tool gate self pool ''execute_sql'' arguments =
           (Inr [TextContent (join ''\<newline>''
                   (join '','' (column_names res) #
                    map (\<lambda>row. join '','' (map (field_str self) row)) (rows res)))],
            close (get_session pool))"
proof -
  from assms(4) have kind: "startswith (upper (strip query)) ''SELECT'' \<or>
         startswith (upper (strip query)) ''DESCRIBE''"
    by (auto simp: startswith_def)
  from assms(1-3) kind assms(5) have "call_tool gate self pool ''execute_sql'' arguments =
      (Inr [TextContent (tabular (field_str self) res)], close (get_session pool))"
    by (rule call_tool_tabular)
  then show ?thesis by (simp add: tabular_def)
qed

theorem statement_kind_is_prefix_match_witness:
  "upper (strip ''  selected rows'') = ''SELECT'' @ ''ED ROWS'' \<and>
   call_tool security_gate example_server idle_pool ''execute_sql''
     (query_arguments ''  selected rows'') =
     (Inr [TextContent ''c\<newline>0''], close (get_session idle_pool))"
proof -
  let ?q = "''  selected rows''"
  have a: "query_arguments ?q ''query'' = Some ?q"
    by (simp add: query_arguments_def)
  have b: "?q \<noteq> []" by simp
  have g: "security_gate ?q = (False, [])" by code_simp
  have u: "upper (strip ?q) = ''SELECT'' @ ''ED ROWS''" by code_simp
  then have s: "upper (strip ?q) = ''SELECT'' @ ''ED ROWS'' \<or>
                upper (strip ?q) = ''DESCRIBE'' @ ''ED ROWS''" by (rule disjI1)
  have e: "execute_query_statement example_server ?q =
             Inr \<lparr>column_names = [''c''], rows = [[''0'']]\<rparr>"
    by (simp add: example_server_def example_driver_def)
  from statement_kind_is_prefix_match
         [where gate = security_gate and self = example_server and pool = idle_pool
            and arguments = "query_arguments ?q" and query = ?q, OF a b g s e] u
  show ?thesis by (simp add: example_server_def)
qed

section \<open>Reading a resource\<close>

text \<open>
  C10. For a URI that starts with \<^verbatim>\<open>iotdb://\<close>, \<^verbatim>\<open>read_resource\<close> takes as the table
  name the characters between the prefix and the next \<^verbatim>\<open>/\<close>, or the rest of the URI
  when there is none, and ignores what follows: the URI with any suffix after the slash
  and the URI without it give the same result, that of the statement
  \<^verbatim>\<open>SELECT * FROM <table> LIMIT 100\<close>.
\<close>

theorem read_resource_table_name:
  assumes "CHR ''/'' \<notin> set table"
  shows "read_resource self pool (''iotdb://'' @ table @ CHR ''/'' # rest) =
           read_resource self pool (''iotdb://'' @ table) \<and>
         read_resource self pool (''iotdb://'' @ table) =
           (case execute_query_statement self (''SELECT * FROM '' @ table @ '' LIMIT 100'') of
              Inl e \<Rightarrow> (Inl e, get_session pool)
            | Inr res \<Rightarrow> (Inr (tabular (field_str self) res), close (get_session pool)))"
proof -
  have plain: "read_resource self pool (''iotdb://'' @ table) =
           (case execute_query_statement self (''SELECT * FROM '' @ table @ '' LIMIT 100'') of
              Inl e \<Rightarrow> (Inl e, get_session pool)
            | Inr res \<Rightarrow> (Inr (tabular (field_str self) res), close (get_session pool)))"
    using assms
    by (simp add: read_resource_def startswith_def RES_PREFIX_def split_on_no_sep str_limit
          Let_def tabular_def joined_rows_append split: sum.splits)
  have suffixed: "read_resource self pool (''iotdb://'' @ table @ CHR ''/'' # rest) =
           (case execute_query_statement self (''SELECT * FROM '' @ table @ '' LIMIT 100'') of
              Inl e \<Rightarrow> (Inl e, get_session pool)
            | Inr res \<Rightarrow> (Inr (tabular (field_str self) res), close (get_session pool)))"
    using assms
    by (simp add: read_resource_def startswith_def RES_PREFIX_def split_on_append_sep str_limit
          Let_def tabular_def joined_rows_append split: sum.splits)
  from plain suffixed show ?thesis by simp
qed

theorem read_resource_table_name_witness:
  "read_resource example_server idle_pool ''iotdb://sensors/anything'' =
     read_resource example_server idle_pool ''iotdb://sensors'' \<and>
   read_resource example_server idle_pool ''iotdb://sensors'' =
     (Inr ''time,temp\<newline>1,23.5'', close (get_session idle_pool))"
proof -
  have t: "CHR ''/'' \<notin> set ''sensors''" by simp
  have e: "execute_query_statement example_server ''SELECT * FROM sensors LIMIT 100'' =
             Inr sensors_result"
    by (simp add: example_server_def example_driver_def)
  have tab: "tabular (field_str example_server) sensors_result = ''time,temp\<newline>1,23.5''"
    by (simp add: tabular_def sensors_result_def example_server_def)
  from read_resource_table_name
         [where table = "''sensors''" and rest = "''anything''" and self = example_server
            and pool = idle_pool, OF t] e tab
  show ?thesis by simp
qed

section \<open>Prompts\<close>

lemma placeholder_not_Nil: "placeholder key \<noteq> []"
  by (simp add: placeholder_def)

lemma split_str_not_Nil: "split_str s sep \<noteq> []"
  by (induction s sep rule: split_str.induct) (auto split: list.splits)

lemma join_push: "join sep ((c # piece) # pieces) = c # join sep (piece # pieces)"
  by (cases pieces) auto

lemma join_split_str: "sep \<noteq> [] \<Longrightarrow> join sep (split_str s sep) = s"
proof (induction s sep rule: split_str.induct)
  case (1 sep)
  then show ?case by simp
next
  case (2 c cs sep)
  show ?case
  proof (cases "prefix sep (c # cs)")
    case True
    then have whole: "sep @ drop (length sep) (c # cs) = c # cs"
      by (auto simp: prefix_def)
    from 2 True have "join sep (split_str (c # cs) sep) = sep @ drop (length sep) (c # cs)"
      by (simp add: join_Cons split_str_not_Nil)
    with whole show ?thesis by simp
  next
    case False
    with 2 show ?thesis
      by (cases "split_str cs sep") (auto simp: split_str_not_Nil join_push)
  qed
qed

lemma replace_join_split:
  "old \<noteq> [] \<Longrightarrow> replace s old new = join new (split_str s old)"
proof (induction s old new rule: replace.induct)
  case (1 old new)
  then show ?case by simp
next
  case (2 c cs old new)
  show ?case
  proof (cases "prefix old (c # cs)")
    case True
    with 2 show ?thesis by (simp add: join_Cons split_str_not_Nil)
  next
    case False
    with 2 show ?thesis
      by (cases "split_str cs old") (auto simp: split_str_not_Nil join_push)
  qed
qed

lemma replace_substitute:
  "replace s (placeholder key) val = substitute [(key, val)] s"
proof (induction s "placeholder key" val rule: replace.induct)
  case (1 new)
  then show ?case by (simp add: placeholder_not_Nil)
next
  case (2 c cs new)
  then show ?case by (simp add: placeholder_not_Nil)
qed

lemma fold_replace_join_split:
  "foldl (\<lambda>formatted (key, val). replace formatted (placeholder key) val) body items =
   foldl (\<lambda>formatted (key, val). join val (split_str formatted (placeholder key))) body items"
proof (induction items arbitrary: body)
  case Nil
  show ?case by simp
next
  case (Cons item items)
  obtain key val where item: "item = (key, val)" by (cases item)
  have "replace body (placeholder key) val = join val (split_str body (placeholder key))"
    by (rule replace_join_split) (rule placeholder_not_Nil)
  with Cons item show ?case by simp
qed

text \<open>
  C6, as amended. For an unknown prompt name \<^verbatim>\<open>get_prompt\<close> raises. For a known
  name it returns the template body unchanged when no arguments are given; otherwise it
  takes the supplied arguments one after another, in the order of the dictionary, and
  replaces in the text produced so far every occurrence of the placeholder
  \<^verbatim>\<open>{{ key }}\<close> by the argument's value, found from the left without overlap: the
  text is cut at the placeholders and the pieces, kept as they are, are joined by the
  value. With one supplied argument the result is the body with every occurrence of
  that argument's placeholder replaced and all other text, other placeholders
  included, unchanged.
\<close>

theorem get_prompt_replaces_in_turn:
  "(templates self name = None \<longrightarrow>
      get_prompt self name arguments = Inl (ValueError (''Unknown template: '' @ name))) \<and>
   (templates self name = Some tmpl \<longrightarrow>
      get_prompt self name None = Inr (prompt_result tmpl (template_body tmpl)) \<and>
      get_prompt self name (Some items) =
        Inr (prompt_result tmpl
               (foldl (\<lambda>formatted (key, val). join val (split_str formatted (placeholder key)))
                  (template_body tmpl) items)) \<and>
      get_prompt self name (Some [(key, val)]) =
        Inr (prompt_result tmpl (substitute [(key, val)] (template_body tmpl)))) \<and>
   join (placeholder key) (split_str formatted (placeholder key)) = formatted"
proof (intro conjI impI)
  assume "templates self name = None"
  then show "get_prompt self name arguments = Inl (ValueError (''Unknown template: '' @ name))"
    by (simp add: get_prompt_def)
next
  assume "templates self name = Some tmpl"
  then show "get_prompt self name None = Inr (prompt_result tmpl (template_body tmpl))"
    by (simp add: get_prompt_def prompt_result_def)
next
  assume known: "templates self name = Some tmpl"
  show "get_prompt self name (Some items) =
        Inr (prompt_result tmpl
               (foldl (\<lambda>formatted (key, val). join val (split_str formatted (placeholder key)))
                  (template_body tmpl) items))"
  proof (cases "items = []")
    case True
    with known show ?thesis by (simp add: get_prompt_def prompt_result_def)
  next
    case False
    with known show ?thesis
      by (simp add: get_prompt_def prompt_result_def fold_replace_join_split)
  qed
next
  show "join (placeholder key) (split_str formatted (placeholder key)) = formatted"
    by (rule join_split_str) (rule placeholder_not_Nil)
next
  assume known: "templates self name = Some tmpl"
  have "replace (template_body tmpl) (placeholder key) val =
        substitute [(key, val)] (template_body tmpl)"
    by (rule replace_substitute)
  with known show "get_prompt self name (Some [(key, val)]) =
        Inr (prompt_result tmpl (substitute [(key, val)] (template_body tmpl)))"
    by (simp add: get_prompt_def prompt_result_def)
qed

theorem get_prompt_replaces_in_turn_witness:
  "get_prompt example_server ''unknown'' None = Inl (ValueError ''Unknown template: unknown'') \<and>
   get_prompt example_server ''summary'' None =
     Inr (prompt_result summary_template ''Summarise {{ topic }} for {{ audience }}'') \<and>
   get_prompt example_server ''summary'' (Some [(''audience'', ''experts'')]) =
     Inr (prompt_result summary_template ''Summarise {{ topic }} for experts'')"
proof -
  have unknown: "templates example_server ''unknown'' = None"
    by (simp add: example_server_def example_templates_def)
  have known: "templates example_server ''summary'' = Some summary_template"
    by (simp add: example_server_def example_templates_def)
  have body: "template_body summary_template = ''Summarise {{ topic }} for {{ audience }}''"
    by (simp add: summary_template_def)
  have subst: "substitute [(''audience'', ''experts'')] ''Summarise {{ topic }} for {{ audience }}'' =
               ''Summarise {{ topic }} for experts''"
    by code_simp
  note th1 = get_prompt_replaces_in_turn
    [where self = example_server and name = "''unknown''" and arguments = None,
     THEN conjunct1, THEN mp, OF unknown]
  note th2 = get_prompt_replaces_in_turn
    [where self = example_server and name = "''summary''" and tmpl = summary_template
       and key = "''audience''" and val = "''experts''",
     THEN conjunct2, THEN conjunct1, THEN mp, OF known]
  from th1 have 1: "get_prompt example_server ''unknown'' None =
      Inl (ValueError ''Unknown template: unknown'')" by simp
  from th2[THEN conjunct1] have 2: "get_prompt example_server ''summary'' None =
     Inr (prompt_result summary_template ''Summarise {{ topic }} for {{ audience }}'')"
    unfolding body .
  from th2[THEN conjunct2, THEN conjunct2]
  have 3: "get_prompt example_server ''summary'' (Some [(''audience'', ''experts'')]) =
     Inr (prompt_result summary_template ''Summarise {{ topic }} for experts'')"
    unfolding body subst .
  from 1 2 3 show ?thesis by (intro conjI)
qed

text \<open>
  C6 as stated fails for two arguments where the value of the first contains the
  placeholder of the second: the replacements follow one another, so the later argument
  rewrites text that the earlier one inserted, where the specification replaces only
  the placeholders of the template body.
\<close>

theorem later_argument_rewrites_earlier_value:
  "get_prompt example_server ''summary''
     (Some [(''topic'', ''the {{ audience }} table''), (''audience'', ''experts'')]) =
     Inr (prompt_result summary_template ''Summarise the experts table for experts'') \<and>
   substitute [(''topic'', ''the {{ audience }} table''), (''audience'', ''experts'')]
     (template_body summary_template) =
     ''Summarise the {{ audience }} table for experts''"
  by code_simp

section \<open>The verdict of the security gate\<close>

lemma strip_empty_iff: "strip s = [] \<longleftrightarrow> (\<forall>c \<in> set s. isspace c)"
proof -
  have "strip s = [] \<longleftrightarrow> dropWhile isspace (rev (dropWhile isspace s)) = []"
    by (simp add: strip_def)
  also have "\<dots> \<longleftrightarrow> (\<forall>c \<in> set (dropWhile isspace s). isspace c)"
    by (simp add: dropWhile_eq_Nil_conv)
  also have "\<dots> \<longleftrightarrow> dropWhile isspace s = []"
    by (metis dropWhile_eq_Nil_conv dropWhile_idem empty_iff list.set(1))
  also have "\<dots> \<longleftrightarrow> (\<forall>c \<in> set s. isspace c)"
    by (simp add: dropWhile_eq_Nil_conv)
  finally show ?thesis .
qed










lemma outside_literals_plain:
  "CHR 0x27 \<notin> set pre \<Longrightarrow> CHR 0x22 \<notin> set pre \<Longrightarrow>
   outside_literals None (pre @ rest) = pre @ outside_literals None rest"
  by (induction pre) auto

lemma outside_literals_skip:
  "q \<notin> set lit \<Longrightarrow> outside_literals (Some q) (lit @ q # post) = outside_literals None post"
  by (induction lit) auto

lemma outside_literals_literal:
  assumes "quote = CHR 0x27 \<or> quote = CHR 0x22" and "quote \<notin> set lit"
    and "CHR 0x27 \<notin> set pre" and "CHR 0x22 \<notin> set pre"
  shows "outside_literals None (pre @ quote # lit @ quote # post) =
           pre @ CHR '' '' # outside_literals None post"
proof -
  have "outside_literals None (quote # lit @ quote # post) =
          CHR '' '' # outside_literals (Some quote) (lit @ quote # post)"
    using assms(1) by auto
  with assms(2-4) show ?thesis
    by (simp add: outside_literals_plain outside_literals_skip)
qed

lemma quote_not_blank:
  "quote = CHR 0x27 \<or> quote = CHR 0x22 \<Longrightarrow> strip (pre @ quote # rest) \<noteq> []"
  by (auto simp: strip_empty_iff isspace_def whitespace_def)



lemma gate_ignores_literal:
  assumes "quote = CHR 0x27 \<or> quote = CHR 0x22" and "quote \<notin> set lit"
    and "CHR 0x27 \<notin> set pre" and "CHR 0x22 \<notin> set pre"
  shows "security_gate (pre @ quote # lit @ quote # post) =
         security_gate (pre @ quote # quote # post)"
proof -
  have "outside_literals None (pre @ quote # lit @ quote # post) =
        outside_literals None (pre @ quote # [] @ quote # post)"
    using assms by (simp only: outside_literals_literal[where lit = lit]
        outside_literals_literal[where lit = "[]"] list.set empty_iff not_False_eq_True)
  moreover have "strip (pre @ quote # lit @ quote # post) \<noteq> []"
    using assms(1) by (rule quote_not_blank)
  moreover have "strip (pre @ quote # quote # post) \<noteq> []"
    using assms(1) by (rule quote_not_blank)
  ultimately show ?thesis by (simp add: security_gate_def)
qed




end
